theory Spec2Isabelle
  imports Complex_Main
begin

section \<open>Benchmark harnesses of desktop\_search: data model\<close>

text \<open>
  The two scripts \<^verbatim>\<open>src/data/recoll_benchmark.py\<close> and
  \<^verbatim>\<open>src/data/docfetcher_benchmark.py\<close> read (query id, query text) rows, ask a
  search backend, and write one run-file row per result. The backends (the recoll Python
  binding, the DocFetcher application behind a py4j gateway), the csv module and the clock
  are libraries: they are parameters of the model. Strings are \<^typ>\<open>string\<close>, so a
  character is one of 256 values.
\<close>

definition MAX_RANK :: nat where
  "MAX_RANK = 100"

text \<open>A result object: the recoll \<^verbatim>\<open>Doc\<close> with its \<^verbatim>\<open>filename\<close> attribute, the
  DocFetcher result with its \<^verbatim>\<open>getFilename()\<close>.\<close>

datatype doc = Doc (filename: string)

text \<open>The tuple written by \<^verbatim>\<open>results_csv.writerow\<close>, in its column order.\<close>

record row =
  query_id :: string
  iteration :: int
  doc_id :: string
  rank :: int
  score :: int
  run_tag :: int
  duration_s :: real

text \<open>The exceptions the scripts can raise; none is caught, so each one ends the run.\<close>

datatype error = IndexError | StopIteration | AttributeError

section \<open>Query normalisation\<close>

text \<open>Python's \<^verbatim>\<open>str.replace(old, new)\<close>: the occurrences of \<^verbatim>\<open>old\<close> are found from
  left to right and do not overlap. For an empty \<^verbatim>\<open>old\<close> Python puts \<^verbatim>\<open>new\<close> before
  every character and at the end.\<close>

fun replace_nonempty :: "string \<Rightarrow> string \<Rightarrow> string \<Rightarrow> string" where
  "replace_nonempty old new [] = []"
| "replace_nonempty old new (c # cs) =
     (if take (length old) (c # cs) = old
      then new @ replace_nonempty old new (drop (length old - 1) cs)
      else c # replace_nonempty old new cs)"

definition replace :: "string \<Rightarrow> string \<Rightarrow> string \<Rightarrow> string" where
  "replace old new s =
     (if old = [] then new @ concat (map (\<lambda>c. c # new) s) else replace_nonempty old new s)"

text \<open>Python's \<^verbatim>\<open>str.isspace\<close> on the characters below 256: tab, line feed, vertical tab,
  form feed, carriage return, the four separators 28 to 31, space, NEL and the no-break
  space.\<close>

definition isspace :: "char \<Rightarrow> bool" where
  "isspace c = ((of_char c :: nat) \<in> {9, 10, 11, 12, 13, 28, 29, 30, 31, 32, 133, 160})"

text \<open>Python's \<^verbatim>\<open>str.split()\<close> without argument: the maximal runs of characters that are
  not whitespace. \<^verbatim>\<open>cur\<close> is the word read so far.\<close>

fun split_from :: "string \<Rightarrow> string \<Rightarrow> string list" where
  "split_from cur [] = (if cur = [] then [] else [cur])"
| "split_from cur (c # cs) =
     (if isspace c then (if cur = [] then split_from [] cs else cur # split_from [] cs)
      else split_from (cur @ [c]) cs)"

definition split :: "string \<Rightarrow> string list" where
  "split s = split_from [] s"

text \<open>Python's \<^verbatim>\<open>sep.join(words)\<close>.\<close>

fun join :: "string \<Rightarrow> string list \<Rightarrow> string" where
  "join sep [] = []"
| "join sep [w] = w"
| "join sep (w # v # ws) = w @ sep @ join sep (v # ws)"

text \<open>The chain of \<^verbatim>\<open>replace\<close> calls of \<^verbatim>\<open>recoll_benchmark.py\<close>, lines 26 to 34, in the
  order the calls run.\<close>

definition strip_punctuation :: "string \<Rightarrow> string" where
  "strip_punctuation query_text =
     replace ''/'' '' ''
       (replace ''---'' '' ''
         (replace '' - '' '' ''
           (replace '')'' ''''
             (replace ''('' ''''
               (replace ''?'' ''''
                 (replace '':'' ''''
                   (replace '','' ''''
                     (replace ''.'' '''' query_text))))))))"

definition query_terms :: "string \<Rightarrow> string list" where
  "query_terms query_text = split (strip_punctuation query_text)"

text \<open>The argument of \<^verbatim>\<open>query.execute\<close> in \<^verbatim>\<open>recoll_benchmark.py\<close>.\<close>

definition term_or :: "string \<Rightarrow> string" where
  "term_or query_text = join '' OR '' (query_terms query_text)"

text \<open>The argument of \<^verbatim>\<open>searcher.search\<close> in \<^verbatim>\<open>docfetcher_benchmark.py\<close>.\<close>

definition literal_query :: "string \<Rightarrow> string" where
  "literal_query query_text = replace ''/'' '' '' query_text"

section \<open>The search backends\<close>

text \<open>
  Modelled from the spec: the recoll binding (\<^verbatim>\<open>query.fetchmany\<close>, \<^verbatim>\<open>query.fetchone\<close>) is
  a library outside the repository; the spec gives \<^verbatim>\<open>fetch_one() -> Document | end-of-results\<close>
  and an initial batch of up to K documents. What one call for the next result gives is a
  value, which is a \<^verbatim>\<open>Doc\<close> or Python's \<^verbatim>\<open>None\<close>, or the exception \<^verbatim>\<open>StopIteration\<close>:
  both ways of signalling the end of the results are kept. An executed query is the
  sequence of these replies by cursor position; it may be infinite.
\<close>

datatype reply = Returns "doc option" | Raises

text \<open>Modelled from the spec: \<^verbatim>\<open>query.fetchmany(n)\<close> from cursor position \<^verbatim>\<open>pos\<close> gives
  the next documents, at most \<^verbatim>\<open>n\<close> of them, up to the first position that holds no
  document, and leaves the cursor at the position reached.\<close>

fun fetchmany :: "(nat \<Rightarrow> reply) \<Rightarrow> nat \<Rightarrow> nat \<Rightarrow> doc list \<times> nat" where
  "fetchmany sq pos 0 = ([], pos)"
| "fetchmany sq pos (Suc n) =
     (case sq pos of
        Returns (Some d) \<Rightarrow> (case fetchmany sq (Suc pos) n of (ds, pos') \<Rightarrow> (d # ds, pos'))
      | _ \<Rightarrow> ([], pos))"

text \<open>A backend that holds exactly the documents \<^verbatim>\<open>ds\<close>: position \<^verbatim>\<open>n\<close> gives the
  \<^verbatim>\<open>n\<close>-th of them, and every position past the last gives the reply \<^verbatim>\<open>eor\<close>, its
  signal for the end of the results.\<close>

definition results_then :: "doc list \<Rightarrow> reply \<Rightarrow> nat \<Rightarrow> reply" where
  "results_then ds eor n = (if n < length ds then Returns (Some (ds ! n)) else eor)"

section \<open>Deduplication with backfill\<close>

text \<open>
  Lines 44 to 49 of \<^verbatim>\<open>recoll_benchmark.py\<close>:
  \<^verbatim>\<open>
  for doc in results:
      if doc.filename in results_ids:
          results.append(query.fetchone())
      else:
          results_ids.add(doc.filename)
          results_dedup.append(doc)
  \<close>
  A Python \<^verbatim>\<open>for\<close> over a list reads index \<^verbatim>\<open>i\<close> while \<^verbatim>\<open>i < len(results)\<close>, so it
  also visits what the body appends. \<^verbatim>\<open>None.filename\<close> raises \<^verbatim>\<open>AttributeError\<close>. The
  loop need not end: the value \<^term>\<open>None :: (error + doc list) option\<close> of the model is
  a loop that never returns.
\<close>

partial_function (option) dedup_loop ::
  "(nat \<Rightarrow> reply) \<Rightarrow> nat \<Rightarrow> doc option list \<Rightarrow> nat \<Rightarrow> string set \<Rightarrow> doc list
   \<Rightarrow> (error + doc list) option" where
  "dedup_loop sq pos results i results_ids results_dedup =
     (if i < length results then
        (case results ! i of
           None \<Rightarrow> Some (Inl AttributeError)
         | Some d \<Rightarrow>
             if filename d \<in> results_ids then
               (case sq pos of
                  Raises \<Rightarrow> Some (Inl StopIteration)
                | Returns v \<Rightarrow>
                    dedup_loop sq (Suc pos) (results @ [v]) (Suc i) results_ids results_dedup)
             else
               dedup_loop sq pos results (Suc i) (insert (filename d) results_ids)
                 (results_dedup @ [d]))
      else Some (Inr results_dedup))"

text \<open>Lines 41 to 49: the first batch of at most \<^verbatim>\<open>k\<close> results, then the loop. The
  script calls it with \<^term>\<open>MAX_RANK\<close>.\<close>

definition deduplicate :: "nat \<Rightarrow> (nat \<Rightarrow> reply) \<Rightarrow> (error + doc list) option" where
  "deduplicate k sq =
     (case fetchmany sq 0 k of
        (results, pos) \<Rightarrow> dedup_loop sq pos (map Some results) 0 {} [])"

section \<open>Writing the rows of one query\<close>

text \<open>Python's \<^verbatim>\<open>s[:-4]\<close>: all but the last four characters, empty for a shorter
  string.\<close>

definition drop_last4 :: "string \<Rightarrow> string" where
  "drop_last4 s = take (length s - 4) s"

text \<open>The \<^verbatim>\<open>for i, doc in enumerate(...)\<close> loop that both scripts end a query with.\<close>

definition writerows :: "string \<Rightarrow> doc list \<Rightarrow> real \<Rightarrow> row list" where
  "writerows qid docs dur =
     map (\<lambda>(i, d).
            \<lparr>query_id = qid, iteration = 0, doc_id = drop_last4 (filename d),
             rank = int i, score = int MAX_RANK - int i, run_tag = 0, duration_s = dur\<rparr>)
         (enumerate 0 docs)"

section \<open>One query\<close>

text \<open>
  \<^verbatim>\<open>time.perf_counter()\<close> is the parameter \<^verbatim>\<open>clock\<close>: its reading at the
  \<^verbatim>\<open>tick\<close>-th call. Each query reads it twice. The readings are real numbers here; the
  difference of two floats has the sign of the exact difference.
\<close>

text \<open>The body of the query loop of \<^verbatim>\<open>recoll_benchmark.py\<close>, lines 21 to 58;
  \<^verbatim>\<open>db\<close> gives the result sequence of an executed query string.\<close>

definition recoll_query ::
  "(string \<Rightarrow> nat \<Rightarrow> reply) \<Rightarrow> (nat \<Rightarrow> real) \<Rightarrow> nat \<Rightarrow> string \<Rightarrow> string
   \<Rightarrow> (error + row list) option" where
  "recoll_query db clock tick qid query_text =
     (let time_start = clock tick in
      case deduplicate MAX_RANK (db (term_or query_text)) of
        None \<Rightarrow> None
      | Some (Inl e) \<Rightarrow> Some (Inl e)
      | Some (Inr results_dedup) \<Rightarrow>
          Some (Inr (writerows qid results_dedup (clock (Suc tick) - time_start))))"

text \<open>The body of the query loop of \<^verbatim>\<open>docfetcher_benchmark.py\<close>, lines 27 to 42;
  \<^verbatim>\<open>searcher\<close> gives the result list of a query string.\<close>

definition docfetcher_query ::
  "(string \<Rightarrow> doc list) \<Rightarrow> (nat \<Rightarrow> real) \<Rightarrow> nat \<Rightarrow> string \<Rightarrow> string \<Rightarrow> row list" where
  "docfetcher_query searcher clock tick qid query_text =
     (let time_start = clock tick;
          results = take MAX_RANK (searcher (literal_query query_text))
      in writerows qid results (clock (Suc tick) - time_start))"

section \<open>The whole run\<close>

text \<open>
  The input is the list of rows the csv reader yields, each a list of columns.
  \<^verbatim>\<open>query_row[0]\<close> and \<^verbatim>\<open>query_row[1]\<close> raise \<^verbatim>\<open>IndexError\<close> on a row with fewer than
  two columns. A run gives the rows written and how it ended; \<^verbatim>\<open>out\<close> holds the rows
  written so far.
\<close>

datatype status = Finished | Aborted error

fun recoll_run ::
  "(string \<Rightarrow> nat \<Rightarrow> reply) \<Rightarrow> (nat \<Rightarrow> real) \<Rightarrow> nat \<Rightarrow> string list list \<Rightarrow> row list
   \<Rightarrow> (row list \<times> status) option" where
  "recoll_run db clock tick [] out = Some (out, Finished)"
| "recoll_run db clock tick (query_row # rest) out =
     (if length query_row < 2 then Some (out, Aborted IndexError)
      else
        (case recoll_query db clock tick (query_row ! 0) (query_row ! 1) of
           None \<Rightarrow> None
         | Some (Inl e) \<Rightarrow> Some (out, Aborted e)
         | Some (Inr rows) \<Rightarrow> recoll_run db clock (tick + 2) rest (out @ rows)))"

fun docfetcher_run ::
  "(string \<Rightarrow> doc list) \<Rightarrow> (nat \<Rightarrow> real) \<Rightarrow> nat \<Rightarrow> string list list \<Rightarrow> row list
   \<Rightarrow> row list \<times> status" where
  "docfetcher_run searcher clock tick [] out = (out, Finished)"
| "docfetcher_run searcher clock tick (query_row # rest) out =
     (if length query_row < 2 then (out, Aborted IndexError)
      else
        docfetcher_run searcher clock (tick + 2) rest
          (out @ docfetcher_query searcher clock tick (query_row ! 0) (query_row ! 1)))"

section \<open>Properties of the deduplication loop\<close>

text \<open>What a returning loop has accepted: one document for every position it had still to
  visit, with pairwise different filenames.\<close>

lemma dedup_loop_length:
  assumes "dedup_loop sq pos results i ids dd = Some r"
  shows "\<forall>ds. r = Inr ds \<longrightarrow> length ds = length dd + (length results - i)"
  by (rule dedup_loop.raw_induct
        [where P = "\<lambda>sq pos results i ids dd r.
                      \<forall>ds. r = Inr ds \<longrightarrow> length ds = length dd + (length results - i)",
         OF _ assms])
     (auto split: if_splits option.splits reply.splits)


lemma fetchmany_length: "length (fst (fetchmany sq pos n)) \<le> n"
proof (induction n arbitrary: pos)
  case 0
  show ?case by simp
next
  case (Suc n)
  from Suc.IH [of "Suc pos"] show ?case
    by (auto split: reply.splits option.splits prod.splits)
qed

text \<open>When the loop returns: a pool that holds a \<^verbatim>\<open>None\<close> ahead is left at that position at
  the latest, and a result sequence with a position that holds no document bounds the
  fetches.\<close>

lemma dedup_loop_reaches_None:
  "i \<le> j \<Longrightarrow> j < length results \<Longrightarrow> results ! j = None \<Longrightarrow>
   \<exists>r. dedup_loop sq pos results i ids dd = Some r"
proof (induction "j - i" arbitrary: i pos results ids dd)
  case 0
  then have "i = j" by simp
  with 0 show ?case by (subst dedup_loop.simps) simp
next
  case (Suc m)
  then have lt: "i < length results" and ij: "Suc i \<le> j" and m: "m = j - Suc i" by simp_all
  show ?case
  proof (cases "results ! i")
    case None
    with lt show ?thesis by (subst dedup_loop.simps) simp
  next
    case (Some d)
    show ?thesis
    proof (cases "filename d \<in> ids")
      case False
      from Suc.hyps(1) [OF m ij Suc.prems(2) Suc.prems(3)]
      obtain r where "dedup_loop sq pos results (Suc i) (insert (filename d) ids) (dd @ [d]) = Some r"
        by blast
      with lt Some False show ?thesis by (subst dedup_loop.simps) simp
    next
      case True
      show ?thesis
      proof (cases "sq pos")
        case Raises
        with lt Some True show ?thesis by (subst dedup_loop.simps) simp
      next
        case (Returns v)
        have "j < length (results @ [v])" and "(results @ [v]) ! j = None"
          using Suc.prems by (simp_all add: nth_append)
        from Suc.hyps(1) [OF m ij this]
        obtain r where "dedup_loop sq (Suc pos) (results @ [v]) (Suc i) ids dd = Some r"
          by blast
        with lt Some True Returns show ?thesis by (subst dedup_loop.simps) simp
      qed
    qed
  qed
qed

lemma dedup_loop_returns:
  "pos \<le> n \<Longrightarrow> sq n = Raises \<or> sq n = Returns None \<Longrightarrow>
   \<exists>r. dedup_loop sq pos results i ids dd = Some r"
proof (induction "(n - pos) + (length results - i)" arbitrary: i pos results ids dd)
  case 0
  then have "\<not> i < length results \<or> pos = n" by auto
  then show ?case
  proof
    assume "\<not> i < length results"
    then show ?thesis by (subst dedup_loop.simps) simp
  next
    assume pn: "pos = n"
    show ?thesis
    proof (cases "i < length results")
      case False
      then show ?thesis by (subst dedup_loop.simps) simp
    next
      case True
      with 0 show ?thesis by simp
    qed
  qed
next
  case (Suc m)
  show ?case
  proof (cases "i < length results")
    case False
    then show ?thesis by (subst dedup_loop.simps) simp
  next
    case lt: True
    show ?thesis
    proof (cases "results ! i")
      case None
      with lt show ?thesis by (subst dedup_loop.simps) simp
    next
      case (Some d)
      show ?thesis
      proof (cases "filename d \<in> ids")
        case False
        have "m = (n - pos) + (length results - Suc i)" using Suc.hyps(2) lt by simp
        from Suc.hyps(1) [OF this Suc.prems]
        obtain r where "dedup_loop sq pos results (Suc i) (insert (filename d) ids) (dd @ [d]) = Some r"
          by blast
        with lt Some False show ?thesis by (subst dedup_loop.simps) simp
      next
        case True
        show ?thesis
        proof (cases "sq pos")
          case Raises
          with lt Some True show ?thesis by (subst dedup_loop.simps) simp
        next
          case (Returns v)
          show ?thesis
          proof (cases v)
            case None
            have "Suc i \<le> length results" "length results < length (results @ [v])"
              "(results @ [v]) ! length results = None"
              using lt None by simp_all
            from dedup_loop_reaches_None [OF this]
            obtain r where "dedup_loop sq (Suc pos) (results @ [v]) (Suc i) ids dd = Some r"
              by blast
            with lt Some True Returns show ?thesis by (subst dedup_loop.simps) simp
          next
            case (Some d')
            with Returns Suc.prems have "pos \<noteq> n" by auto
            with Suc.prems have le: "Suc pos \<le> n" by simp
            have "m = (n - Suc pos) + (length (results @ [v]) - Suc i)"
              using Suc.hyps(2) lt le by simp
            from Suc.hyps(1) [OF this le Suc.prems(2)]
            obtain r where "dedup_loop sq (Suc pos) (results @ [v]) (Suc i) ids dd = Some r"
              by blast
            with lt \<open>results ! i = Some d\<close> True Returns show ?thesis
              by (subst dedup_loop.simps) simp
          qed
        qed
      qed
    qed
  qed
qed

lemma fetchmany_stops:
  "pos \<le> n \<Longrightarrow> sq n = Raises \<or> sq n = Returns None \<Longrightarrow> snd (fetchmany sq pos k) \<le> n"
proof (induction k arbitrary: pos)
  case 0
  then show ?case by simp
next
  case (Suc k)
  show ?case
  proof (cases "sq pos")
    case Raises
    with Suc.prems show ?thesis by simp
  next
    case (Returns v)
    show ?thesis
    proof (cases v)
      case None
      with Returns Suc.prems show ?thesis by simp
    next
      case (Some d)
      with Returns Suc.prems have "pos \<noteq> n" by auto
      with Suc.prems have "Suc pos \<le> n" by simp
      from Suc.IH [OF this Suc.prems(2)] Returns Some show ?thesis
        by (cases "fetchmany sq (Suc pos) k") simp
    qed
  qed
qed

lemma deduplicate_returns:
  assumes "sq n = Raises \<or> sq n = Returns None"
  shows "\<exists>r. deduplicate k sq = Some r"
proof -
  obtain results pos where f: "fetchmany sq 0 k = (results, pos)" by (cases "fetchmany sq 0 k")
  from fetchmany_stops [of 0 n sq k] assms f have "pos \<le> n" by simp
  then have "\<exists>r. dedup_loop sq pos (map Some results) 0 {} [] = Some r"
    using assms by (rule dedup_loop_returns)
  with f show ?thesis by (simp add: deduplicate_def)
qed

text \<open>When it does not: a backend that answers every fetch with the same document.\<close>

lemma dedup_loop_diverges:
  assumes "dedup_loop sq pos results i ids dd = Some r"
  shows "\<not> ((\<forall>n. sq n = Returns (Some d)) \<and> i < length results \<and> set results \<subseteq> {Some d}
            \<and> (filename d \<in> ids \<or> Suc i < length results))"
proof (rule dedup_loop.raw_induct
        [where P = "\<lambda>sq pos results i ids dd r.
            \<not> ((\<forall>n. sq n = Returns (Some d)) \<and> i < length results \<and> set results \<subseteq> {Some d}
                \<and> (filename d \<in> ids \<or> Suc i < length results))",
         OF _ assms])
  fix f sq pos results i ids dd r
  assume IH: "\<And>sq pos results i ids dd r. f sq pos results i ids dd = Some r \<Longrightarrow>
            \<not> ((\<forall>n. sq n = Returns (Some d)) \<and> i < length results \<and> set results \<subseteq> {Some d}
                \<and> (filename d \<in> ids \<or> Suc i < length results))"
    and step: "(if i < length results then
        (case results ! i of
           None \<Rightarrow> Some (Inl AttributeError)
         | Some d \<Rightarrow>
             if filename d \<in> ids then
               (case sq pos of
                  Raises \<Rightarrow> Some (Inl StopIteration)
                | Returns v \<Rightarrow> f sq (Suc pos) (results @ [v]) (Suc i) ids dd)
             else f sq pos results (Suc i) (insert (filename d) ids) (dd @ [d]))
      else Some (Inr dd)) = Some r"
  show "\<not> ((\<forall>n. sq n = Returns (Some d)) \<and> i < length results \<and> set results \<subseteq> {Some d}
                \<and> (filename d \<in> ids \<or> Suc i < length results))"
  proof
    assume inv: "(\<forall>n. sq n = Returns (Some d)) \<and> i < length results \<and> set results \<subseteq> {Some d}
                \<and> (filename d \<in> ids \<or> Suc i < length results)"
    then have sq: "\<forall>n. sq n = Returns (Some d)" and lt: "i < length results"
      and sub: "set results \<subseteq> {Some d}" by simp_all
    from lt sub have here: "results ! i = Some d" using nth_mem by fastforce
    show False
    proof (cases "filename d \<in> ids")
      case True
      with step lt here sq
      have "f sq (Suc pos) (results @ [Some d]) (Suc i) ids dd = Some r" by simp
      from IH [OF this] sq lt sub True show False by simp
    next
      case False
      with step lt here
      have "f sq pos results (Suc i) (insert (filename d) ids) (dd @ [d]) = Some r" by simp
      from IH [OF this] sq sub inv False show False by simp
    qed
  qed
qed

lemma fetchmany_constant:
  "fetchmany (\<lambda>n. Returns (Some d)) pos k = (replicate k d, pos + k)"
  by (induction k arbitrary: pos) simp_all

lemma deduplicate_constant:
  "2 \<le> k \<Longrightarrow> deduplicate k (\<lambda>n. Returns (Some d)) = None"
proof (rule ccontr)
  assume k: "2 \<le> k" and "deduplicate k (\<lambda>n. Returns (Some d)) \<noteq> None"
  then obtain r where
    "dedup_loop (\<lambda>n. Returns (Some d)) k (map Some (replicate k d)) 0 {} [] = Some r"
    by (auto simp: deduplicate_def fetchmany_constant)
  from dedup_loop_diverges [OF this, of d] k show False by auto
qed

section \<open>Properties of the rows and of a query\<close>

lemma writerows_length: "length (writerows qid docs dur) = length docs"
  by (simp add: writerows_def)

lemma writerows_nth:
  "i < length docs \<Longrightarrow>
   writerows qid docs dur ! i =
     \<lparr>query_id = qid, iteration = 0, doc_id = drop_last4 (filename (docs ! i)),
      rank = int i, score = int MAX_RANK - int i, run_tag = 0, duration_s = dur\<rparr>"
  by (simp add: writerows_def nth_enumerate_eq)

lemma writerows_rank: "map rank (writerows qid docs dur) = map int [0..<length docs]"
  by (rule nth_equalityI) (simp_all add: writerows_length writerows_nth)

lemma writerows_score:
  "map score (writerows qid docs dur) = map (\<lambda>r. int MAX_RANK - rank r) (writerows qid docs dur)"
  by (rule nth_equalityI) (simp_all add: writerows_length writerows_nth)


lemma writerows_duration: "r \<in> set (writerows qid docs dur) \<Longrightarrow> duration_s r = dur"
  by (auto simp: in_set_conv_nth writerows_length writerows_nth)

lemma recoll_query_rows:
  "recoll_query db clock tick qid query_text = Some (Inr rows) \<Longrightarrow>
   \<exists>ds. deduplicate MAX_RANK (db (term_or query_text)) = Some (Inr ds)
        \<and> rows = writerows qid ds (clock (Suc tick) - clock tick)"
  by (auto simp: recoll_query_def split: option.splits sum.splits)

lemma deduplicate_length:
  "deduplicate k sq = Some (Inr ds) \<Longrightarrow> length ds = length (fst (fetchmany sq 0 k))"
  by (cases "fetchmany sq 0 k") (auto simp: deduplicate_def dest: dedup_loop_length)


text \<open>A malformed row ends either run where the rows before it left it.\<close>

lemma recoll_run_append:
  "length query_row < 2 \<Longrightarrow>
   recoll_run db clock tick (pre @ query_row # rest) out =
     (case recoll_run db clock tick pre out of
        Some (out', Finished) \<Rightarrow> Some (out', Aborted IndexError)
      | other \<Rightarrow> other)"
  by (induction pre arbitrary: tick out) (auto split: option.splits sum.splits)

lemma docfetcher_run_append:
  "length query_row < 2 \<Longrightarrow>
   docfetcher_run searcher clock tick (pre @ query_row # rest) out =
     (case docfetcher_run searcher clock tick pre out of
        (out', Finished) \<Rightarrow> (out', Aborted IndexError)
      | other \<Rightarrow> other)"
  by (induction pre arbitrary: tick out) auto

text \<open>The end-to-end example: the input row \<^verbatim>\<open>1<TAB>foo bar\<close>, a backend that holds
  \<^verbatim>\<open>A.ext\<close> and \<^verbatim>\<open>B.ext\<close>, and a clock that reads 0 and then 1.\<close>

lemma recoll_example:
  "recoll_query (\<lambda>q. results_then [Doc ''A.ext'', Doc ''B.ext''] Raises) real 0 ''1'' ''foo bar''
   = Some (Inr [\<lparr>query_id = ''1'', iteration = 0, doc_id = ''A'', rank = 0, score = 100,
                  run_tag = 0, duration_s = 1\<rparr>,
                \<lparr>query_id = ''1'', iteration = 0, doc_id = ''B'', rank = 1, score = 99,
                  run_tag = 0, duration_s = 1\<rparr>])"
  by (simp add: recoll_query_def deduplicate_def results_then_def MAX_RANK_def eval_nat_numeral
      dedup_loop.simps writerows_def drop_last4_def enumerate_eq_zip upt_rec)

lemma docfetcher_example:
  "docfetcher_query (\<lambda>q. [Doc ''A.ext'', Doc ''B.ext'']) real 0 ''1'' ''foo bar''
   = [\<lparr>query_id = ''1'', iteration = 0, doc_id = ''A'', rank = 0, score = 100,
                  run_tag = 0, duration_s = 1\<rparr>,
                \<lparr>query_id = ''1'', iteration = 0, doc_id = ''B'', rank = 1, score = 99,
                  run_tag = 0, duration_s = 1\<rparr>]"
  by (simp add: docfetcher_query_def MAX_RANK_def writerows_def drop_last4_def
      enumerate_eq_zip upt_rec)

section \<open>Properties of normalisation\<close>

text \<open>Replacing one character by another is a map over the text; splitting and joining add
  no character that the text or the separator does not hold.\<close>

lemma replace_char:
  "replace [c] [d] s = map (\<lambda>x. if x = c then d else x) s"
  by (induction s) (simp_all add: replace_def)

lemma set_split_from:
  "w \<in> set (split_from cur s) \<Longrightarrow> x \<in> set w \<Longrightarrow> x \<in> set cur \<union> set s"
proof (induction s arbitrary: cur)
  case Nil
  then show ?case by (simp split: if_splits)
next
  case (Cons c cs)
  show ?case
  proof (cases "isspace c")
    case True
    with Cons.prems have "w = cur \<or> w \<in> set (split_from [] cs)"
      by (auto split: if_splits)
    then show ?thesis
    proof
      assume "w = cur"
      with Cons.prems show ?thesis by simp
    next
      assume "w \<in> set (split_from [] cs)"
      from Cons.IH [OF this Cons.prems(2)] show ?thesis by simp
    qed
  next
    case False
    with Cons.prems have "w \<in> set (split_from (cur @ [c]) cs)" by simp
    from Cons.IH [OF this Cons.prems(2)] show ?thesis by auto
  qed
qed

lemma set_join: "set (join sep ws) \<subseteq> set sep \<union> \<Union> (set ` set ws)"
  by (induction sep ws rule: join.induct) auto

lemma strip_punctuation_map:
  "strip_punctuation t =
     map (\<lambda>c. if c = CHR ''/'' then CHR '' '' else c)
       (replace ''---'' '' ''
         (replace '' - '' '' ''
           (replace '')'' ''''
             (replace ''('' ''''
               (replace ''?'' ''''
                 (replace '':'' ''''
                   (replace '','' ''''
                     (replace ''.'' '''' t))))))))"
  by (simp add: strip_punctuation_def replace_char)

lemma no_slash_strip: "CHR ''/'' \<notin> set (strip_punctuation t)"
  by (auto simp: strip_punctuation_map)

lemma no_slash_term_or: "CHR ''/'' \<notin> set (term_or t)"
proof
  assume "CHR ''/'' \<in> set (term_or t)"
  with set_join [of "'' OR ''" "query_terms t"]
  have "CHR ''/'' \<in> \<Union> (set ` set (query_terms t))"
    by (auto simp: term_or_def)
  then have "CHR ''/'' \<in> set (strip_punctuation t)"
    by (auto simp: query_terms_def split_def dest: set_split_from)
  with no_slash_strip show False by blast
qed

section \<open>A backend with one duplicate\<close>






section \<open>Claims on deduplication\<close>



text \<open>
  Claim C2 (backfill exhaustion stops early with D1 accepted, one row, no error) against
  the code: the backend holds D1, D1, D1 and then signals the end of the results. The
  first batch is D1, D1, D1; D1 is accepted; the duplicate at index 1 calls
  \<^verbatim>\<open>fetchone\<close>. If the end is signalled by \<^verbatim>\<open>StopIteration\<close>, it is raised there; if
  it is signalled by \<^verbatim>\<open>None\<close>, the \<^verbatim>\<open>None\<close> is appended and \<^verbatim>\<open>None.filename\<close> raises
  when the loop visits it. Either way the exception ends the run: no row of that query is
  written and the next query is not processed.
\<close>

theorem C2_backfill_exhaustion_raises:
  "deduplicate MAX_RANK (results_then [Doc ''D1.txt'', Doc ''D1.txt'', Doc ''D1.txt''] Raises)
     = Some (Inl StopIteration)
   \<and> deduplicate MAX_RANK
       (results_then [Doc ''D1.txt'', Doc ''D1.txt'', Doc ''D1.txt''] (Returns None))
     = Some (Inl AttributeError)
   \<and> recoll_run (\<lambda>q. results_then [Doc ''D1.txt'', Doc ''D1.txt'', Doc ''D1.txt''] Raises)
       clock 0 [[''1'', ''foo''], [''2'', ''bar'']] []
     = Some ([], Aborted StopIteration)
   \<and> recoll_run
       (\<lambda>q. results_then [Doc ''D1.txt'', Doc ''D1.txt'', Doc ''D1.txt''] (Returns None))
       clock 0 [[''1'', ''foo''], [''2'', ''bar'']] []
     = Some ([], Aborted AttributeError)"
  by (simp add: recoll_query_def deduplicate_def results_then_def MAX_RANK_def eval_nat_numeral
      dedup_loop.simps)

text \<open>
  Claim C3, as stated, fails. The loop has no bound on the backfill fetches: with a
  backend that answers every fetch with the same document D1, every position after the
  first is a duplicate whose backfill appends one more duplicate, and the loop never
  returns.
\<close>

theorem C3_constant_duplicate_never_returns:
  "deduplicate MAX_RANK (\<lambda>n. Returns (Some (Doc ''D1.txt''))) = None"
  by (rule deduplicate_constant) (simp add: MAX_RANK_def)

text \<open>
  Claim C3, amended. Deduplication returns, with the accepted documents or with an
  exception, whenever the backend's result sequence has a position that holds no
  document, that is, whenever the results end.
\<close>

theorem C3_returns_when_results_end:
  assumes "sq n = Raises \<or> sq n = Returns None"
  shows "\<exists>r. deduplicate k sq = Some r"
  using assms by (rule deduplicate_returns)

theorem C3_returns_when_results_end_witness:
  "(results_then [Doc ''D1.txt'', Doc ''D1.txt'', Doc ''D1.txt''] Raises 3 = Raises
    \<or> results_then [Doc ''D1.txt'', Doc ''D1.txt'', Doc ''D1.txt''] Raises 3 = Returns None)
   \<and> (\<exists>r. deduplicate MAX_RANK
             (results_then [Doc ''D1.txt'', Doc ''D1.txt'', Doc ''D1.txt''] Raises) = Some r)"
proof -
  have h: "results_then [Doc ''D1.txt'', Doc ''D1.txt'', Doc ''D1.txt''] Raises 3 = Raises
    \<or> results_then [Doc ''D1.txt'', Doc ''D1.txt'', Doc ''D1.txt''] Raises 3 = Returns None"
    by (simp add: results_then_def)
  from h
    C3_returns_when_results_end
      [where sq = "results_then [Doc ''D1.txt'', Doc ''D1.txt'', Doc ''D1.txt''] Raises"
         and n = 3 and k = MAX_RANK]
  show ?thesis by blast
qed

text \<open>
  Claim C10. The number of accepted documents never exceeds the size of the first batch:
  every backfill fetch replaces one discarded duplicate. When the loop returns normally,
  every duplicate has been replaced, and the accepted count equals the size of the first
  batch, here any pool \<^verbatim>\<open>results\<close> the loop starts on.
\<close>

theorem C10_accepted_count:
  assumes "dedup_loop sq pos results 0 {} [] = Some (Inr results_dedup)"
  shows "length results_dedup = length results"
  using dedup_loop_length [OF assms] by simp

theorem C10_accepted_count_witness:
  "dedup_loop
     (results_then [Doc ''D1.txt'', Doc ''D2.txt'', Doc ''D1.txt'', Doc ''D3.txt''] Raises)
     3 [Some (Doc ''D1.txt''), Some (Doc ''D2.txt''), Some (Doc ''D1.txt'')] 0 {} []
     = Some (Inr [Doc ''D1.txt'', Doc ''D2.txt'', Doc ''D3.txt''])
   \<and> length [Doc ''D1.txt'', Doc ''D2.txt'', Doc ''D3.txt'']
     = length [Some (Doc ''D1.txt''), Some (Doc ''D2.txt''), Some (Doc ''D1.txt'')]"
proof -
  have h: "dedup_loop
     (results_then [Doc ''D1.txt'', Doc ''D2.txt'', Doc ''D1.txt'', Doc ''D3.txt''] Raises)
     3 [Some (Doc ''D1.txt''), Some (Doc ''D2.txt''), Some (Doc ''D1.txt'')] 0 {} []
     = Some (Inr [Doc ''D1.txt'', Doc ''D2.txt'', Doc ''D3.txt''])"
    by (simp add: dedup_loop.simps results_then_def)
  from h C10_accepted_count [OF h] show ?thesis by blast
qed




section \<open>Claims on the rows of a query\<close>

text \<open>
  Claim C5. For every query and every backend result sequence, the number of rows written
  for the query is at most \<^term>\<open>MAX_RANK\<close> (and, being a length, at least 0), in the
  truncating harness and in the deduplicating harness.
\<close>

theorem C5_rows_at_most_MAX_RANK:
  assumes "recoll_query db clock tick qid query_text = Some (Inr rows)
           \<or> docfetcher_query searcher clock tick qid query_text = rows"
  shows "length rows \<le> MAX_RANK"
  using assms
proof
  assume "recoll_query db clock tick qid query_text = Some (Inr rows)"
  then obtain ds where d: "deduplicate MAX_RANK (db (term_or query_text)) = Some (Inr ds)"
    and r: "rows = writerows qid ds (clock (Suc tick) - clock tick)"
    by (blast dest: recoll_query_rows)
  from deduplicate_length [OF d] fetchmany_length [of "db (term_or query_text)" 0 MAX_RANK] r
  show ?thesis by (simp add: writerows_length)
next
  assume "docfetcher_query searcher clock tick qid query_text = rows"
  then show ?thesis by (auto simp: docfetcher_query_def writerows_length)
qed

theorem C5_rows_at_most_MAX_RANK_witness:
  "recoll_query (\<lambda>q. results_then [Doc ''A.ext'', Doc ''B.ext''] Raises) real 0
       ''1'' ''foo bar''
     = Some (Inr [\<lparr>query_id = ''1'', iteration = 0, doc_id = ''A'', rank = 0, score = 100,
                 run_tag = 0, duration_s = 1\<rparr>,
                \<lparr>query_id = ''1'', iteration = 0, doc_id = ''B'', rank = 1, score = 99,
                 run_tag = 0, duration_s = 1\<rparr>])
   \<and> docfetcher_query (\<lambda>q. [Doc ''A.ext'', Doc ''B.ext'']) real 0 ''1'' ''foo bar''
     = [\<lparr>query_id = ''1'', iteration = 0, doc_id = ''A'', rank = 0, score = 100,
       run_tag = 0, duration_s = 1\<rparr>,
      \<lparr>query_id = ''1'', iteration = 0, doc_id = ''B'', rank = 1, score = 99,
       run_tag = 0, duration_s = 1\<rparr>]
   \<and> length
       [\<lparr>query_id = ''1'', iteration = 0, doc_id = ''A'', rank = 0, score = 100,
         run_tag = 0, duration_s = 1\<rparr>,
        \<lparr>query_id = ''1'', iteration = 0, doc_id = ''B'', rank = 1, score = 99,
         run_tag = 0, duration_s = 1\<rparr>]
     \<le> MAX_RANK"
proof -
  have r: "recoll_query (\<lambda>q. results_then [Doc ''A.ext'', Doc ''B.ext''] Raises) real 0
       ''1'' ''foo bar''
       = Some (Inr [\<lparr>query_id = ''1'', iteration = 0, doc_id = ''A'', rank = 0, score = 100,
                   run_tag = 0, duration_s = 1\<rparr>,
                  \<lparr>query_id = ''1'', iteration = 0, doc_id = ''B'', rank = 1, score = 99,
                   run_tag = 0, duration_s = 1\<rparr>])"
    by (rule recoll_example)
  have d: "docfetcher_query (\<lambda>q. [Doc ''A.ext'', Doc ''B.ext'']) real 0 ''1'' ''foo bar''
       = [\<lparr>query_id = ''1'', iteration = 0, doc_id = ''A'', rank = 0, score = 100,
         run_tag = 0, duration_s = 1\<rparr>,
        \<lparr>query_id = ''1'', iteration = 0, doc_id = ''B'', rank = 1, score = 99,
         run_tag = 0, duration_s = 1\<rparr>]"
    by (rule docfetcher_example)
  from r d C5_rows_at_most_MAX_RANK [OF disjI1 [OF r]] C5_rows_at_most_MAX_RANK [OF disjI2 [OF d]]
  show ?thesis by blast
qed

text \<open>
  Claim C6. For a query that writes n rows, the ranks of the rows are 0, 1, ..., n - 1 in
  the order written, and every row has score = MAX\_RANK - rank.
\<close>

theorem C6_ranks_and_scores:
  assumes "recoll_query db clock tick qid query_text = Some (Inr rows)
           \<or> docfetcher_query searcher clock tick qid query_text = rows"
  shows "map rank rows = map int [0..<length rows]
         \<and> map score rows = map (\<lambda>r. int MAX_RANK - rank r) rows"
proof -
  from assms obtain docs dur where "rows = writerows qid docs dur"
    by (auto simp: docfetcher_query_def Let_def dest: recoll_query_rows)
  then show ?thesis
    using writerows_rank [of qid docs dur] writerows_score [of qid docs dur]
    by (simp add: writerows_length)
qed

theorem C6_ranks_and_scores_witness:
  "recoll_query (\<lambda>q. results_then [Doc ''A.ext'', Doc ''B.ext''] Raises) real 0
       ''1'' ''foo bar''
     = Some (Inr [\<lparr>query_id = ''1'', iteration = 0, doc_id = ''A'', rank = 0, score = 100,
                 run_tag = 0, duration_s = 1\<rparr>,
                \<lparr>query_id = ''1'', iteration = 0, doc_id = ''B'', rank = 1, score = 99,
                 run_tag = 0, duration_s = 1\<rparr>])
   \<and> docfetcher_query (\<lambda>q. [Doc ''A.ext'', Doc ''B.ext'']) real 0 ''1'' ''foo bar''
     = [\<lparr>query_id = ''1'', iteration = 0, doc_id = ''A'', rank = 0, score = 100,
       run_tag = 0, duration_s = 1\<rparr>,
      \<lparr>query_id = ''1'', iteration = 0, doc_id = ''B'', rank = 1, score = 99,
       run_tag = 0, duration_s = 1\<rparr>]
   \<and> map rank
       [\<lparr>query_id = ''1'', iteration = 0, doc_id = ''A'', rank = 0, score = 100,
         run_tag = 0, duration_s = 1\<rparr>,
        \<lparr>query_id = ''1'', iteration = 0, doc_id = ''B'', rank = 1, score = 99,
         run_tag = 0, duration_s = 1\<rparr>]
     = [0, 1]
   \<and> map score
       [\<lparr>query_id = ''1'', iteration = 0, doc_id = ''A'', rank = 0, score = 100,
         run_tag = 0, duration_s = 1\<rparr>,
        \<lparr>query_id = ''1'', iteration = 0, doc_id = ''B'', rank = 1, score = 99,
         run_tag = 0, duration_s = 1\<rparr>]
     = [100 - 0, 100 - 1]"
proof -
  have r: "recoll_query (\<lambda>q. results_then [Doc ''A.ext'', Doc ''B.ext''] Raises) real 0
       ''1'' ''foo bar''
       = Some (Inr [\<lparr>query_id = ''1'', iteration = 0, doc_id = ''A'', rank = 0, score = 100,
                   run_tag = 0, duration_s = 1\<rparr>,
                  \<lparr>query_id = ''1'', iteration = 0, doc_id = ''B'', rank = 1, score = 99,
                   run_tag = 0, duration_s = 1\<rparr>])"
    by (rule recoll_example)
  have d: "docfetcher_query (\<lambda>q. [Doc ''A.ext'', Doc ''B.ext'']) real 0 ''1'' ''foo bar''
       = [\<lparr>query_id = ''1'', iteration = 0, doc_id = ''A'', rank = 0, score = 100,
         run_tag = 0, duration_s = 1\<rparr>,
        \<lparr>query_id = ''1'', iteration = 0, doc_id = ''B'', rank = 1, score = 99,
         run_tag = 0, duration_s = 1\<rparr>]"
    by (rule docfetcher_example)
  from r d C6_ranks_and_scores [OF disjI1 [OF r]] C6_ranks_and_scores [OF disjI2 [OF d]]
  show ?thesis by (simp add: MAX_RANK_def upt_rec)
qed

text \<open>
  Claim C9. With a clock that does not go backwards between the two readings of a query,
  \<^verbatim>\<open>duration_s\<close> is the same value in every row of the query, the second reading minus
  the first, and it is not negative.
\<close>

theorem C9_duration:
  assumes "clock tick \<le> clock (Suc tick)"
    and "recoll_query db clock tick qid query_text = Some (Inr rows)
           \<or> docfetcher_query searcher clock tick qid query_text = rows"
  shows "\<forall>r\<in>set rows. duration_s r = clock (Suc tick) - clock tick \<and> 0 \<le> duration_s r"
proof -
  from assms(2) obtain docs where "rows = writerows qid docs (clock (Suc tick) - clock tick)"
    by (auto simp: docfetcher_query_def Let_def dest: recoll_query_rows)
  with assms(1) show ?thesis by (auto dest: writerows_duration)
qed

theorem C9_duration_witness:
  "real 0 \<le> real (Suc 0)
   \<and> recoll_query (\<lambda>q. results_then [Doc ''A.ext'', Doc ''B.ext''] Raises) real 0
       ''1'' ''foo bar''
     = Some (Inr [\<lparr>query_id = ''1'', iteration = 0, doc_id = ''A'', rank = 0, score = 100,
                 run_tag = 0, duration_s = 1\<rparr>,
                \<lparr>query_id = ''1'', iteration = 0, doc_id = ''B'', rank = 1, score = 99,
                 run_tag = 0, duration_s = 1\<rparr>])
   \<and> docfetcher_query (\<lambda>q. [Doc ''A.ext'', Doc ''B.ext'']) real 0 ''1'' ''foo bar''
     = [\<lparr>query_id = ''1'', iteration = 0, doc_id = ''A'', rank = 0, score = 100,
       run_tag = 0, duration_s = 1\<rparr>,
      \<lparr>query_id = ''1'', iteration = 0, doc_id = ''B'', rank = 1, score = 99,
       run_tag = 0, duration_s = 1\<rparr>]
   \<and> list_all (\<lambda>r. duration_s r = real (Suc 0) - real 0 \<and> 0 \<le> duration_s r)
       [\<lparr>query_id = ''1'', iteration = 0, doc_id = ''A'', rank = 0, score = 100,
         run_tag = 0, duration_s = 1\<rparr>,
        \<lparr>query_id = ''1'', iteration = 0, doc_id = ''B'', rank = 1, score = 99,
         run_tag = 0, duration_s = 1\<rparr>]"
proof -
  have c: "real 0 \<le> real (Suc 0)" by simp
  have r: "recoll_query (\<lambda>q. results_then [Doc ''A.ext'', Doc ''B.ext''] Raises) real 0
       ''1'' ''foo bar''
       = Some (Inr [\<lparr>query_id = ''1'', iteration = 0, doc_id = ''A'', rank = 0, score = 100,
                   run_tag = 0, duration_s = 1\<rparr>,
                  \<lparr>query_id = ''1'', iteration = 0, doc_id = ''B'', rank = 1, score = 99,
                   run_tag = 0, duration_s = 1\<rparr>])"
    by (rule recoll_example)
  have d: "docfetcher_query (\<lambda>q. [Doc ''A.ext'', Doc ''B.ext'']) real 0 ''1'' ''foo bar''
       = [\<lparr>query_id = ''1'', iteration = 0, doc_id = ''A'', rank = 0, score = 100,
         run_tag = 0, duration_s = 1\<rparr>,
        \<lparr>query_id = ''1'', iteration = 0, doc_id = ''B'', rank = 1, score = 99,
         run_tag = 0, duration_s = 1\<rparr>]"
    by (rule docfetcher_example)
  from c r d C9_duration [OF c disjI1 [OF r]] C9_duration [OF c disjI2 [OF d]]
  show ?thesis by simp
qed

section \<open>Claims on the input and on normalisation\<close>

text \<open>
  Claim C8. A row with fewer than two columns raises \<^verbatim>\<open>IndexError\<close>, which ends the
  run: what has been written is what the rows before it wrote, and nothing is written for
  that row or for any later one. If the run ended before reaching the row, it ended as it
  did without it.
\<close>

theorem C8_short_row_aborts_run:
  assumes "length query_row < 2"
  shows "recoll_run db clock tick (pre @ query_row # rest) out =
           (case recoll_run db clock tick pre out of
              Some (out', Finished) \<Rightarrow> Some (out', Aborted IndexError)
            | other \<Rightarrow> other)
         \<and> docfetcher_run searcher clock tick (pre @ query_row # rest) out =
           (case docfetcher_run searcher clock tick pre out of
              (out', Finished) \<Rightarrow> (out', Aborted IndexError)
            | other \<Rightarrow> other)"
  using assms by (simp add: recoll_run_append docfetcher_run_append)

theorem C8_short_row_aborts_run_witness:
  "length [''2''] < 2
   \<and> recoll_run (\<lambda>q. results_then [Doc ''A.ext'', Doc ''B.ext''] Raises) real 0
       ([[''1'', ''foo bar'']] @ [''2''] # [[''3'', ''baz'']]) []
     = Some ([\<lparr>query_id = ''1'', iteration = 0, doc_id = ''A'', rank = 0, score = 100,
                  run_tag = 0, duration_s = 1\<rparr>,
                \<lparr>query_id = ''1'', iteration = 0, doc_id = ''B'', rank = 1, score = 99,
                  run_tag = 0, duration_s = 1\<rparr>], Aborted IndexError)
   \<and> docfetcher_run (\<lambda>q. [Doc ''A.ext'', Doc ''B.ext'']) real 0
       ([[''1'', ''foo bar'']] @ [''2''] # [[''3'', ''baz'']]) []
     = ([\<lparr>query_id = ''1'', iteration = 0, doc_id = ''A'', rank = 0, score = 100,
                  run_tag = 0, duration_s = 1\<rparr>,
                \<lparr>query_id = ''1'', iteration = 0, doc_id = ''B'', rank = 1, score = 99,
                  run_tag = 0, duration_s = 1\<rparr>], Aborted IndexError)"
proof -
  have h: "length [''2''] < 2" by simp
  from C8_short_row_aborts_run
    [OF h, of "\<lambda>q. results_then [Doc ''A.ext'', Doc ''B.ext''] Raises" real 0
      "[[''1'', ''foo bar'']]" "[[''3'', ''baz'']]" "[]" "\<lambda>q. [Doc ''A.ext'', Doc ''B.ext'']"]
  show ?thesis by (simp add: recoll_example docfetcher_example)
qed

text \<open>
  Claim C7. Both policies replace every path separator by a space: the literal policy's
  query is the text with each \<^verbatim>\<open>/\<close> turned into a space, the Term-OR policy turns each
  \<^verbatim>\<open>/\<close> left by the earlier replacements into a space before it splits, and neither
  query holds a \<^verbatim>\<open>/\<close>. Term-OR normalisation maps \<^verbatim>\<open>What is (the) cost?\<close> to the terms
  What, is, the, cost, joined with the OR operator. \<^verbatim>\<open>a/b/c\<close> becomes \<^verbatim>\<open>a b c\<close>: that is
  the literal policy's query, and in the Term-OR policy it is the text that is then split
  into the terms a, b, c and joined to \<^verbatim>\<open>a OR b OR c\<close>.
\<close>

theorem C7_normalisation:
  "literal_query t = map (\<lambda>c. if c = CHR ''/'' then CHR '' '' else c) t
   \<and> term_or t =
       join '' OR ''
         (split
           (map (\<lambda>c. if c = CHR ''/'' then CHR '' '' else c)
             (replace ''---'' '' ''
               (replace '' - '' '' ''
                 (replace '')'' ''''
                   (replace ''('' ''''
                     (replace ''?'' ''''
                       (replace '':'' ''''
                         (replace '','' ''''
                           (replace ''.'' '''' t))))))))))
   \<and> CHR ''/'' \<notin> set (literal_query t)
   \<and> CHR ''/'' \<notin> set (term_or t)
   \<and> query_terms ''What is (the) cost?'' = [''What'', ''is'', ''the'', ''cost'']
   \<and> term_or ''What is (the) cost?'' = ''What OR is OR the OR cost''
   \<and> literal_query ''a/b/c'' = ''a b c''
   \<and> strip_punctuation ''a/b/c'' = ''a b c''
   \<and> query_terms ''a/b/c'' = [''a'', ''b'', ''c'']
   \<and> term_or ''a/b/c'' = ''a OR b OR c''"
proof -
  have 1: "literal_query t = map (\<lambda>c. if c = CHR ''/'' then CHR '' '' else c) t"
    by (simp add: literal_query_def replace_char)
  have 2: "CHR ''/'' \<notin> set (literal_query t)" by (auto simp: 1)
  have 3: "query_terms ''What is (the) cost?'' = [''What'', ''is'', ''the'', ''cost'']
   \<and> term_or ''What is (the) cost?'' = ''What OR is OR the OR cost''
   \<and> literal_query ''a/b/c'' = ''a b c''
   \<and> strip_punctuation ''a/b/c'' = ''a b c''
   \<and> query_terms ''a/b/c'' = [''a'', ''b'', ''c'']
   \<and> term_or ''a/b/c'' = ''a OR b OR c''"
    by (simp add: query_terms_def term_or_def literal_query_def strip_punctuation_def
      replace_def split_def isspace_def)
  have 4: "term_or t =
       join '' OR ''
         (split
           (map (\<lambda>c. if c = CHR ''/'' then CHR '' '' else c)
             (replace ''---'' '' ''
               (replace '' - '' '' ''
                 (replace '')'' ''''
                   (replace ''('' ''''
                     (replace ''?'' ''''
                       (replace '':'' ''''
                         (replace '','' ''''
                           (replace ''.'' '''' t))))))))))"
    by (simp add: term_or_def query_terms_def strip_punctuation_map)
  from 1 2 3 4 no_slash_term_or [of t] show ?thesis by blast
qed

end
